theory Spec2Isabelle
  imports Complex_Main "HOL-Library.Sublist" "HOL-Library.Multiset"
begin

section \<open>Python values\<close>

text \<open>
  The tools receive and return JSON-like dictionaries (\<^verbatim>\<open>list[dict]\<close>).  A value is
  one of the JSON shapes.  Python's \<^verbatim>\<open>int\<close> and \<^verbatim>\<open>float\<close> are both read as a real
  number: binary rounding error, infinities and NaN are outside this model.  A dictionary
  is an association list; a lookup takes the first binding of the key.
\<close>

datatype pyval =
    PNone
  | PBool bool
  | PNum real
  | PStr string
  | PList "pyval list"
  | PDict "(string \<times> pyval) list"

type_synonym pydict = "(string \<times> pyval) list"

datatype py_error = TypeError | ValueError | KeyError | AttributeError

text \<open>\<^verbatim>\<open>d.get(k, default)\<close> and \<^verbatim>\<open>d[k]\<close>.\<close>

definition dict_get :: "pydict \<Rightarrow> string \<Rightarrow> pyval \<Rightarrow> pyval" where
  "dict_get d k dflt = (case map_of d k of None \<Rightarrow> dflt | Some v \<Rightarrow> v)"

definition dict_item :: "pydict \<Rightarrow> string \<Rightarrow> py_error + pyval" where
  "dict_item d k = (case map_of d k of None \<Rightarrow> Inl KeyError | Some v \<Rightarrow> Inr v)"

text \<open>
  \<^verbatim>\<open>isinstance(v, (int, float))\<close> holds of numbers and of booleans (\<^verbatim>\<open>bool\<close> is a
  subclass of \<^verbatim>\<open>int\<close>, with \<^verbatim>\<open>True == 1\<close>); \<open>as_number\<close> gives the numeric value
  of such a value and \<open>None\<close> for every other one.
\<close>

fun as_number :: "pyval \<Rightarrow> real option" where
  "as_number (PNum r) = Some r"
| "as_number (PBool b) = Some (if b then 1 else 0)"
| "as_number _ = None"

text \<open>Truth value of a Python object, as \<^verbatim>\<open>if v:\<close> reads it.\<close>

fun truthy :: "pyval \<Rightarrow> bool" where
  "truthy PNone = False"
| "truthy (PBool b) = b"
| "truthy (PNum r) = (r \<noteq> 0)"
| "truthy (PStr s) = (s \<noteq> [])"
| "truthy (PList xs) = (xs \<noteq> [])"
| "truthy (PDict d) = (d \<noteq> [])"

text \<open>\<^verbatim>\<open>str.lower\<close> on the ASCII letters; other characters are kept.\<close>

definition lower_char :: "char \<Rightarrow> char" where
  "lower_char c =
     (let n = (of_char c :: nat) in if 65 \<le> n \<and> n \<le> 90 then char_of (n + 32) else c)"

definition lower :: "string \<Rightarrow> string" where
  "lower s = map lower_char s"

text \<open>\<^verbatim>\<open>v.lower()\<close> on a value: only a string has the method.\<close>

fun str_lower :: "pyval \<Rightarrow> py_error + string" where
  "str_lower (PStr s) = Inr (lower s)"
| "str_lower _ = Inl AttributeError"

text \<open>
  \<^verbatim>\<open>round(x, n)\<close>: the nearest multiple of \<open>10\<^sup>-\<^sup>n\<close>, a tie going to the even
  multiple.
\<close>

definition py_round :: "nat \<Rightarrow> real \<Rightarrow> real" where
  "py_round n x =
     (let y = x * 10 ^ n; f = \<lfloor>y\<rfloor>; d = y - of_int f
      in (if d < 1 / 2 then of_int f
          else if 1 / 2 < d then of_int (f + 1)
          else if even f then of_int f else of_int (f + 1)) / 10 ^ n)"

section \<open>Calculator tool\<close>

subsection \<open>\<^verbatim>\<open>CalculatorTool.execute\<close>\<close>

record calc_result =
  total_sum :: real
  item_count :: nat

text \<open>One pass of the loop body over the accumulators \<^verbatim>\<open>total\<close> (here \<open>tot\<close>) and
  \<^verbatim>\<open>valid_count\<close>.\<close>

definition calculator_execute_step :: "real \<times> nat \<Rightarrow> pydict \<Rightarrow> real \<times> nat" where
  "calculator_execute_step acc item =
     (case acc of (tot, valid_count) \<Rightarrow>
        (case as_number (dict_get item ''price'' (PNum 0)) of
           Some price \<Rightarrow>
             if 0 < price then (tot + price, valid_count + 1) else (tot, valid_count)
         | None \<Rightarrow> (tot, valid_count)))"

definition calculator_execute :: "pydict list \<Rightarrow> calc_result" where
  "calculator_execute vegetarian_items =
     (case foldl calculator_execute_step (0, 0) vegetarian_items of
        (tot, valid_count) \<Rightarrow>
          \<lparr>total_sum = py_round 2 tot, item_count = valid_count\<rparr>)"


subsection \<open>\<^verbatim>\<open>CalculatorTool.recompute_with_corrections\<close>\<close>

record recompute_result =
  rc_vegetarian_items :: "pydict list"
  rc_total_sum :: real
  corrections_applied :: nat

text \<open>
  The dictionary comprehension \<^verbatim>\<open>{c["name"].lower(): c["is_vegetarian"] for c in corrections}\<close>,
  left to right; a later binding of a key replaces the earlier one.
\<close>

fun correction_map :: "pydict list \<Rightarrow> (string \<rightharpoonup> pyval) \<Rightarrow> py_error + (string \<rightharpoonup> pyval)" where
  "correction_map [] m = Inr m"
| "correction_map (c # cs) m =
     (case dict_item c ''name'' of
        Inl e \<Rightarrow> Inl e
      | Inr n \<Rightarrow>
          (case str_lower n of
             Inl e \<Rightarrow> Inl e
           | Inr k \<Rightarrow>
               (case dict_item c ''is_vegetarian'' of
                  Inl e \<Rightarrow> Inl e
                | Inr v \<Rightarrow> correction_map cs (m(k \<mapsto> v)))))"

definition human_verified :: "pyval \<Rightarrow> pydict \<Rightarrow> pydict" where
  "human_verified name item =
     [(''name'', name),
      (''price'', dict_get item ''price'' (PNum 0)),
      (''confidence'', PNum 1),
      (''reasoning'', PStr ''Human verified'')]"

fun recompute_loop :: "(string \<rightharpoonup> pyval) \<Rightarrow> pydict list \<Rightarrow> pydict list \<Rightarrow> py_error + pydict list" where
  "recompute_loop cm [] veg = Inr veg"
| "recompute_loop cm (item # items) veg =
     (let name = dict_get item ''name'' (PStr '''') in
      case str_lower name of
        Inl e \<Rightarrow> Inl e
      | Inr name_lower \<Rightarrow>
          (case cm name_lower of
             Some v \<Rightarrow>
               if truthy v then recompute_loop cm items (veg @ [human_verified name item])
               else recompute_loop cm items veg
           | None \<Rightarrow>
               if truthy (dict_get item ''is_vegetarian'' (PBool False))
               then recompute_loop cm items (veg @ [item])
               else recompute_loop cm items veg))"

text \<open>\<^verbatim>\<open>sum(...)\<close> from the integer 0: adding a value that is not a number raises.\<close>

fun py_sum :: "pyval list \<Rightarrow> real \<Rightarrow> py_error + real" where
  "py_sum [] acc = Inr acc"
| "py_sum (v # vs) acc =
     (case as_number v of None \<Rightarrow> Inl TypeError | Some r \<Rightarrow> py_sum vs (acc + r))"

definition recompute_with_corrections :: "pydict list \<Rightarrow> pydict list \<Rightarrow> py_error + recompute_result" where
  "recompute_with_corrections items corrections =
     (case correction_map corrections Map.empty of
        Inl e \<Rightarrow> Inl e
      | Inr cm \<Rightarrow>
          (case recompute_loop cm items [] of
             Inl e \<Rightarrow> Inl e
           | Inr veg \<Rightarrow>
               (case py_sum (map (\<lambda>i. dict_get i ''price'' (PNum 0)) veg) 0 of
                  Inl e \<Rightarrow> Inl e
                | Inr tot \<Rightarrow>
                    Inr \<lparr>rc_vegetarian_items = veg,
                         rc_total_sum = py_round 2 tot,
                         corrections_applied = length corrections\<rparr>)))"

section \<open>Vector store\<close>

text \<open>
  The metadata stored with a knowledge-base entry by \<^verbatim>\<open>_index_knowledge\<close>, a row of the
  collection's answer to a query, and a hit as \<^verbatim>\<open>search\<close> returns it.
\<close>

record metadata =
  md_name :: string
  md_is_vegetarian :: pyval
  md_category :: string
  md_type :: string
  md_notes :: string

record stored_row =
  row_id :: string
  row_document :: string
  row_metadata :: metadata
  row_distance :: real

record rag_hit =
  hit_id :: string
  document :: string
  hit_metadata :: metadata
  distance :: real
  relevance_score :: real

record settings =
  confidence_threshold :: real
  hitl_threshold :: real
  rag_top_k :: int
  llm_batch_enabled :: bool
  llm_batch_size :: int

definition default_settings :: settings where
  "default_settings =
     \<lparr>confidence_threshold = 6 / 10, hitl_threshold = 4 / 10, rag_top_k = 5,
      llm_batch_enabled = True, llm_batch_size = 8\<rparr>"

text \<open>
  The collaborators outside the repository.  \<open>collection_query q n\<close> is the answer of the
  embedding service and the vector collection to the query text \<open>q\<close> with
  \<^verbatim>\<open>n_results = n\<close>.  \<open>generate_single c name evidence\<close> and
  \<open>generate_batch c names\<close> are the language model's reply to the prompt built from
  these data at call number \<open>c\<close> (the model need not answer the same prompt twice alike),
  \<open>Inl\<close> carrying the text of a raised exception.  \<open>json_object_in r\<close> is the value
  \<^verbatim>\<open>json.loads\<close> gives for the first match of \<^verbatim>\<open>\{[^}]+\}\<close> in \<open>r\<close>, and
  \<open>json_array_in r\<close> the value it gives for the part of the cleaned reply from the first
  \<^verbatim>\<open>[\<close> to the last \<^verbatim>\<open>]\<close>; both are \<open>None\<close> when there is no such part or when
  decoding raises \<^verbatim>\<open>JSONDecodeError\<close> (the source takes the same path in both cases).
  \<open>float_of_str\<close> is \<^verbatim>\<open>float\<close> on a string, \<open>None\<close> for \<^verbatim>\<open>ValueError\<close>.
\<close>

record env =
  collection_query :: "string \<Rightarrow> int \<Rightarrow> stored_row list"
  generate_single :: "nat \<Rightarrow> string \<Rightarrow> rag_hit list \<Rightarrow> string + string"
  generate_batch :: "nat \<Rightarrow> string list \<Rightarrow> string + string"
  json_object_in :: "string \<Rightarrow> pyval option"
  json_array_in :: "string \<Rightarrow> pyval option"
  float_of_str :: "string \<Rightarrow> real option"

text \<open>\<^verbatim>\<open>VectorStore.search\<close>; \<^verbatim>\<open>top_k or settings.rag_top_k\<close> takes the setting when
  \<^verbatim>\<open>top_k\<close> is \<^verbatim>\<open>None\<close> or 0.\<close>

definition effective_k :: "settings \<Rightarrow> int option \<Rightarrow> int" where
  "effective_k st top_k =
     (case top_k of None \<Rightarrow> rag_top_k st | Some k \<Rightarrow> if k = 0 then rag_top_k st else k)"

definition hit_of_row :: "stored_row \<Rightarrow> rag_hit" where
  "hit_of_row r =
     \<lparr>hit_id = row_id r, document = row_document r, hit_metadata = row_metadata r,
      distance = row_distance r, relevance_score = 1 - row_distance r\<rparr>"

definition search :: "env \<Rightarrow> settings \<Rightarrow> string \<Rightarrow> int option \<Rightarrow> rag_hit list" where
  "search ev st query top_k = map hit_of_row (collection_query ev query (effective_k st top_k))"

section \<open>Classifier engine\<close>

record tier =
  is_vegetarian :: pyval
  confidence :: real
  reasoning :: pyval
  method_name :: string

text \<open>The keyword sets of \<^verbatim>\<open>LLMClassifier.__init__\<close>, each in its iteration order.\<close>

record classifier =
  vegetarian_markers :: "string list"
  positive_keywords :: "string list"
  negative_keywords :: "string list"

definition init_classifier :: "string list \<Rightarrow> string list \<Rightarrow> string list \<Rightarrow> classifier" where
  "init_classifier kb_positive kb_negative kb_markers =
     \<lparr>vegetarian_markers = map lower kb_markers,
      positive_keywords = map lower kb_positive,
      negative_keywords = map lower kb_negative\<rparr>"

subsection \<open>Keyword tier\<close>

text \<open>
  \<^verbatim>\<open>re.search(rf'\b{re.escape(kw)}\b', s)\<close>: \<open>kw\<close> occurs in \<open>s\<close> at a position with a word
  boundary on both sides.  A word character is an ASCII letter, a digit or the underscore.
\<close>

definition is_word_char :: "char \<Rightarrow> bool" where
  "is_word_char c =
     (let n = (of_char c :: nat)
      in (48 \<le> n \<and> n \<le> 57) \<or> (65 \<le> n \<and> n \<le> 90) \<or> (97 \<le> n \<and> n \<le> 122) \<or> n = 95)"

definition word_boundary :: "string \<Rightarrow> nat \<Rightarrow> bool" where
  "word_boundary s i =
     ((0 < i \<and> i \<le> length s \<and> is_word_char (s ! (i - 1)))
        \<noteq> (i < length s \<and> is_word_char (s ! i)))"

definition search_word :: "string \<Rightarrow> string \<Rightarrow> bool" where
  "search_word kw s =
     list_ex (\<lambda>i. word_boundary s i \<and> take (length kw) (drop i s) = kw
                   \<and> word_boundary s (i + length kw))
       [0 ..< Suc (length s)]"

definition keyword_hit :: "bool \<Rightarrow> string \<Rightarrow> tier" where
  "keyword_hit veg why =
     \<lparr>is_vegetarian = PBool veg, confidence = 95 / 100, reasoning = PStr why,
      method_name = ''keyword''\<rparr>"

definition keyword_classification :: "classifier \<Rightarrow> string \<Rightarrow> tier" where
  "keyword_classification cl dish_name =
     (let name_lower = lower dish_name in
      case find (\<lambda>marker. sublist marker name_lower) (vegetarian_markers cl) of
        Some marker \<Rightarrow>
          keyword_hit True (''Contains vegetarian marker: '' @ [CHR 0x27] @ marker @ [CHR 0x27])
      | None \<Rightarrow>
          (case find (\<lambda>kw. search_word kw name_lower) (positive_keywords cl) of
             Some kw \<Rightarrow>
               keyword_hit True (''Contains vegetarian indicator: '' @ [CHR 0x27] @ kw @ [CHR 0x27])
           | None \<Rightarrow>
               (case find (\<lambda>kw. search_word kw name_lower) (negative_keywords cl) of
                  Some kw \<Rightarrow>
                    keyword_hit False
                      (''Contains non-vegetarian ingredient: '' @ [CHR 0x27] @ kw @ [CHR 0x27])
                | None \<Rightarrow>
                    \<lparr>is_vegetarian = PNone, confidence = 0, reasoning = PStr ''No keyword match'',
                     method_name = ''keyword''\<rparr>)))"

subsection \<open>RAG tier\<close>

definition retrieve_evidence :: "env \<Rightarrow> settings \<Rightarrow> string \<Rightarrow> rag_hit list" where
  "retrieve_evidence ev st dish_name = search ev st dish_name None"

text \<open>The loop of \<^verbatim>\<open>_analyze_rag_evidence\<close> over \<open>(veg_score, non_veg_score, reasons)\<close>.\<close>

definition score_step :: "real \<times> real \<times> string list \<Rightarrow> rag_hit \<Rightarrow> real \<times> real \<times> string list" where
  "score_step acc item =
     (case acc of (veg_score, non_veg_score, reasons) \<Rightarrow>
        (let relevance = relevance_score item; is_veg = md_is_vegetarian (hit_metadata item) in
         if relevance < 3 / 10 then (veg_score, non_veg_score, reasons)
         else if is_veg = PBool True
           then (veg_score + relevance, non_veg_score,
                 reasons @ [md_name (hit_metadata item) @ '' (vegetarian)''])
         else if is_veg = PBool False
           then (veg_score, non_veg_score + relevance,
                 reasons @ [md_name (hit_metadata item) @ '' (non-vegetarian)''])
         else (veg_score, non_veg_score, reasons)))"

fun join :: "string \<Rightarrow> string list \<Rightarrow> string" where
  "join sep [] = []"
| "join sep [x] = x"
| "join sep (x # y # ys) = x @ sep @ join sep (y # ys)"

definition analyze_rag_evidence :: "rag_hit list \<Rightarrow> tier" where
  "analyze_rag_evidence evidence =
     (if evidence = [] then
        \<lparr>is_vegetarian = PNone, confidence = 0, reasoning = PStr ''No relevant evidence found'',
         method_name = ''rag''\<rparr>
      else
        (case foldl score_step (0, 0, []) evidence of (veg_score, non_veg_score, reasons) \<Rightarrow>
           if non_veg_score < veg_score \<and> 1 / 2 < veg_score then
             \<lparr>is_vegetarian = PBool True,
              confidence = min (85 / 100) (veg_score / (veg_score + non_veg_score + 1 / 10)),
              reasoning = PStr (''Similar to: '' @ join '', '' (take 3 reasons)),
              method_name = ''rag''\<rparr>
           else if veg_score < non_veg_score \<and> 1 / 2 < non_veg_score then
             \<lparr>is_vegetarian = PBool False,
              confidence = min (85 / 100) (non_veg_score / (veg_score + non_veg_score + 1 / 10)),
              reasoning = PStr (''Similar to: '' @ join '', '' (take 3 reasons)),
              method_name = ''rag''\<rparr>
           else
             \<lparr>is_vegetarian = PNone, confidence = 3 / 10,
              reasoning = PStr ''Inconclusive RAG evidence'', method_name = ''rag''\<rparr>))"

subsection \<open>LLM tier\<close>

text \<open>\<^verbatim>\<open>float(v)\<close>.\<close>

definition py_float :: "env \<Rightarrow> pyval \<Rightarrow> py_error + real" where
  "py_float ev v =
     (case v of
        PNum r \<Rightarrow> Inr r
      | PBool b \<Rightarrow> Inr (if b then 1 else 0)
      | PStr s \<Rightarrow> (case float_of_str ev s of None \<Rightarrow> Inl ValueError | Some r \<Rightarrow> Inr r)
      | _ \<Rightarrow> Inl TypeError)"

definition failed_parse :: "string \<Rightarrow> string \<Rightarrow> tier" where
  "failed_parse why m = \<lparr>is_vegetarian = PNone, confidence = 0, reasoning = PStr why, method_name = m\<rparr>"

text \<open>
  \<^verbatim>\<open>_parse_llm_response\<close>.  \<^verbatim>\<open>JSONDecodeError\<close> and \<^verbatim>\<open>ValueError\<close> are caught and give
  the failure result; any other exception leaves the function.
\<close>

definition parse_llm_response :: "env \<Rightarrow> string \<Rightarrow> py_error + tier" where
  "parse_llm_response ev response =
     (case json_object_in ev response of
        None \<Rightarrow> Inr (failed_parse ''Failed to parse LLM response'' ''llm'')
      | Some (PDict d) \<Rightarrow>
          (case py_float ev (dict_get d ''confidence'' (PNum (7 / 10))) of
             Inl ValueError \<Rightarrow> Inr (failed_parse ''Failed to parse LLM response'' ''llm'')
           | Inl e \<Rightarrow> Inl e
           | Inr c \<Rightarrow>
               Inr \<lparr>is_vegetarian = dict_get d ''is_vegetarian'' PNone,
                    confidence = c,
                    reasoning = dict_get d ''reasoning'' (PStr ''LLM classification''),
                    method_name = ''llm''\<rparr>)
      | Some _ \<Rightarrow> Inl AttributeError)"

text \<open>
  \<^verbatim>\<open>_llm_classification\<close>: every exception of the call or of the parsing is caught and
  gives a result without a verdict.  The text of an exception raised inside the engine
  is not modelled; it only appears in the \<open>reasoning\<close> of that result.
\<close>

definition llm_error :: "string \<Rightarrow> string \<Rightarrow> tier" where
  "llm_error error_msg m =
     \<lparr>is_vegetarian = PNone, confidence = 0, reasoning = PStr (''LLM error: '' @ error_msg),
      method_name = m\<rparr>"

definition llm_classification :: "env \<Rightarrow> nat \<Rightarrow> string \<Rightarrow> rag_hit list \<Rightarrow> tier" where
  "llm_classification ev c dish_name evidence =
     (case generate_single ev c dish_name (take 5 evidence) of
        Inl error_msg \<Rightarrow> llm_error error_msg ''llm''
      | Inr response \<Rightarrow>
          (case parse_llm_response ev response of
             Inl e \<Rightarrow> llm_error ''exception'' ''llm''
           | Inr result \<Rightarrow> result))"

subsection \<open>Weighted combination\<close>

text \<open>\<^verbatim>\<open>"; ".join(reasons[:2])\<close> raises \<^verbatim>\<open>TypeError\<close> on an element that is no string.\<close>

fun join_values :: "string \<Rightarrow> pyval list \<Rightarrow> py_error + string" where
  "join_values sep [] = Inr []"
| "join_values sep (PStr x # vs) =
     (case join_values sep vs of
        Inl e \<Rightarrow> Inl e
      | Inr rest \<Rightarrow> Inr (if vs = [] then x else x @ sep @ rest))"
| "join_values sep (_ # vs) = Inl TypeError"

definition combine_results :: "tier \<Rightarrow> tier \<Rightarrow> tier \<Rightarrow> py_error + tier" where
  "combine_results keyword rag llm =
     (let results = [(keyword, 4 / 10), (rag, 3 / 10), (llm, 3 / 10)];
          valid_results = filter (\<lambda>(r, w). is_vegetarian r \<noteq> PNone) results
      in if valid_results = [] then
           Inr \<lparr>is_vegetarian = PNone, confidence = 0, reasoning = PStr ''Unable to classify'',
                method_name = ''combined''\<rparr>
         else
           (let weighted_sum =
                  sum_list (map (\<lambda>(r, w). (if truthy (is_vegetarian r) then 1 else 0) * confidence r * w)
                             valid_results);
                total_weight = sum_list (map (\<lambda>(r, w). confidence r * w) valid_results)
            in if total_weight = 0 then Inr (fst (hd valid_results))
               else
                 (let veg_probability = weighted_sum / total_weight;
                      reasons = filter truthy (map (\<lambda>(r, w). reasoning r) valid_results)
                  in case join_values ''; '' (take 2 reasons) of
                       Inl e \<Rightarrow> Inl e
                     | Inr text \<Rightarrow>
                         Inr \<lparr>is_vegetarian = PBool (1 / 2 < veg_probability),
                              confidence = py_round 3 (\<bar>veg_probability - 1 / 2\<bar> * 2),
                              reasoning = PStr text,
                              method_name = ''combined''\<rparr>)))"

subsection \<open>\<^verbatim>\<open>LLMClassifier.classify\<close>\<close>

text \<open>
  An entry of \<^verbatim>\<open>fallback_chain\<close>: the tier consulted with its confidence (the source
  formats it as text with two decimals), or the token \<^verbatim>\<open>fallback_to_rag\<close>.
\<close>

datatype chain_entry = Consulted string real | Fallback_to_rag

record classify_result = tier +
  evidence :: "string list"
  fallback_chain :: "chain_entry list"
  llm_failed :: "bool option"

definition with_provenance :: "tier \<Rightarrow> string list \<Rightarrow> chain_entry list \<Rightarrow> bool option \<Rightarrow> classify_result" where
  "with_provenance t ev_docs chain failed =
     \<lparr>is_vegetarian = is_vegetarian t, confidence = confidence t, reasoning = reasoning t,
      method_name = method_name t, evidence = ev_docs, fallback_chain = chain,
      llm_failed = failed\<rparr>"

text \<open>\<open>c\<close> is the number of the call, handed to the language model's reply.\<close>

definition classify :: "classifier \<Rightarrow> env \<Rightarrow> settings \<Rightarrow> nat \<Rightarrow> string \<Rightarrow> py_error + classify_result" where
  "classify cl ev st c dish_name =
     (let keyword_result = keyword_classification cl dish_name;
          chain1 = [Consulted ''keyword'' (confidence keyword_result)]
      in if 9 / 10 \<le> confidence keyword_result then
           Inr (with_provenance keyword_result [] chain1 None)
         else
           (let rag_evidence = retrieve_evidence ev st dish_name;
                rag_result = analyze_rag_evidence rag_evidence;
                chain2 = chain1 @ [Consulted ''rag'' (confidence rag_result)]
            in if confidence_threshold st \<le> confidence rag_result then
                 Inr (with_provenance rag_result (map document (take 3 rag_evidence)) chain2 None)
               else
                 (let llm_result = llm_classification ev c dish_name rag_evidence;
                      chain3 = chain2 @ [Consulted ''llm'' (confidence llm_result)];
                      failed = (confidence llm_result = 0 \<or> is_vegetarian llm_result = PNone);
                      chain4 = (if failed then chain3 @ [Fallback_to_rag] else chain3)
                  in case combine_results keyword_result rag_result llm_result of
                       Inl e \<Rightarrow> Inl e
                     | Inr combined \<Rightarrow>
                         Inr (with_provenance combined (map document (take 3 rag_evidence))
                                chain4 (Some failed)))))"

subsection \<open>Batch LLM classification\<close>

record batch_item =
  bi_name :: string
  bi_evidence :: "rag_hit list"

definition batch_tier :: "pydict \<Rightarrow> real \<Rightarrow> tier" where
  "batch_tier item_result c =
     \<lparr>is_vegetarian = dict_get item_result ''is_vegetarian'' PNone,
      confidence = c,
      reasoning = dict_get item_result ''reasoning'' (PStr ''Batch LLM''),
      method_name = ''llm_batch''\<rparr>"

text \<open>
  One element of the decoded array, at index \<open>i\<close>, in \<^verbatim>\<open>_parse_batch_response\<close>.  An
  exception comes with the results stored so far.  The function is called with a
  non-empty \<open>items\<close> only (\<^verbatim>\<open>classify_batch_llm\<close> returns before on an empty list), so
  a dish name that is no string always meets \<^verbatim>\<open>dish_name.lower()\<close>.
\<close>

definition parse_batch_element ::
  "env \<Rightarrow> batch_item list \<Rightarrow> (string \<rightharpoonup> tier) \<Rightarrow> nat \<times> pyval \<Rightarrow> (py_error \<times> (string \<rightharpoonup> tier)) + (string \<rightharpoonup> tier)" where
  "parse_batch_element ev items results x =
     (case x of (i, item_result_value) \<Rightarrow>
        (case item_result_value of
           PDict item_result \<Rightarrow>
             (let d = dict_get item_result ''dish'' PNone;
                  dish_name0 = (if truthy d then d else dict_get item_result ''name'' PNone);
                  dish_name = (if \<not> truthy dish_name0 \<and> i < length items
                               then PStr (bi_name (items ! i)) else dish_name0)
              in if truthy dish_name then
                   (case dish_name of
                      PStr dn \<Rightarrow>
                        (let key =
                               (case find (\<lambda>item. sublist (lower (bi_name item)) (lower dn)
                                                    \<or> sublist (lower dn) (lower (bi_name item))) items of
                                  Some item \<Rightarrow> bi_name item
                                | None \<Rightarrow> dn)
                         in case py_float ev (dict_get item_result ''confidence'' (PNum (7 / 10))) of
                              Inl e \<Rightarrow> Inl (e, results)
                            | Inr c \<Rightarrow> Inr (results(key \<mapsto> batch_tier item_result c)))
                    | _ \<Rightarrow> Inl (AttributeError, results))
                 else Inr results)
         | _ \<Rightarrow> Inl (AttributeError, results)))"

fun parse_batch_loop ::
  "env \<Rightarrow> batch_item list \<Rightarrow> (nat \<times> pyval) list \<Rightarrow> (string \<rightharpoonup> tier) \<Rightarrow> (py_error \<times> (string \<rightharpoonup> tier)) + (string \<rightharpoonup> tier)" where
  "parse_batch_loop ev items [] results = Inr results"
| "parse_batch_loop ev items (x # xs) results =
     (case parse_batch_element ev items results x of
        Inl err \<Rightarrow> Inl err
      | Inr results' \<Rightarrow> parse_batch_loop ev items xs results')"

text \<open>The closing loop: an item without a result gets the failure result.\<close>

fun fill_missing :: "batch_item list \<Rightarrow> (string \<rightharpoonup> tier) \<Rightarrow> (string \<rightharpoonup> tier)" where
  "fill_missing [] results = results"
| "fill_missing (item # items) results =
     fill_missing items
       (case results (bi_name item) of
          None \<Rightarrow> results(bi_name item \<mapsto> failed_parse ''Failed to parse batch response'' ''llm_batch'')
        | Some r \<Rightarrow> results)"

text \<open>
  \<^verbatim>\<open>_parse_batch_response\<close>.  A decoded list returns the results of its elements as they
  are, without the closing loop; \<^verbatim>\<open>ValueError\<close> is caught and goes on to the closing
  loop with the results stored so far; another exception leaves the function.
\<close>

definition parse_batch_response :: "env \<Rightarrow> string \<Rightarrow> batch_item list \<Rightarrow> py_error + (string \<rightharpoonup> tier)" where
  "parse_batch_response ev response items =
     (case json_array_in ev response of
        Some (PList data) \<Rightarrow>
          (case parse_batch_loop ev items (enumerate 0 data) Map.empty of
             Inr results \<Rightarrow> Inr results
           | Inl (ValueError, results) \<Rightarrow> Inr (fill_missing items results)
           | Inl (e, results) \<Rightarrow> Inl e)
      | _ \<Rightarrow> Inr (fill_missing items Map.empty))"

definition batch_error_results :: "string \<Rightarrow> batch_item list \<Rightarrow> (string \<rightharpoonup> tier)" where
  "batch_error_results error_msg items =
     map_of (map (\<lambda>item. (bi_name item,
                           \<lparr>is_vegetarian = PNone, confidence = 0,
                            reasoning = PStr (''Batch LLM error: '' @ error_msg),
                            method_name = ''llm_batch''\<rparr>)) items)"

definition classify_batch_llm :: "env \<Rightarrow> nat \<Rightarrow> batch_item list \<Rightarrow> (string \<rightharpoonup> tier)" where
  "classify_batch_llm ev c items =
     (if items = [] then Map.empty
      else
        (case generate_batch ev c (map bi_name items) of
           Inl error_msg \<Rightarrow> batch_error_results error_msg items
         | Inr response \<Rightarrow>
             (case parse_batch_response ev response items of
                Inl e \<Rightarrow> batch_error_results ''exception'' items
              | Inr results \<Rightarrow> results)))"

section \<open>Classifier tool\<close>

text \<open>
  The dictionaries the tool builds.  Each one carries, as a first component outside the
  dictionary, the position in the request of the item it was built for: the tool builds
  one fresh dictionary per item, and the position stands for that object's identity.
\<close>

type_synonym tagged = "nat \<times> pydict"

record 'a classification =
  vegetarian_items :: "'a list"
  non_vegetarian_items :: "'a list"
  uncertain_items :: "'a list"
  all_items :: "'a list"

definition no_items :: "'a classification" where
  "no_items = \<lparr>vegetarian_items = [], non_vegetarian_items = [], uncertain_items = [], all_items = []\<rparr>"

definition classified_item ::
  "pyval \<Rightarrow> pyval \<Rightarrow> real \<Rightarrow> pyval \<Rightarrow> string list \<Rightarrow> pyval \<Rightarrow> string \<Rightarrow> pydict" where
  "classified_item name price conf reason docs source_image meth =
     [(''name'', name), (''price'', price), (''confidence'', PNum conf), (''reasoning'', reason),
      (''evidence'', PList (map PStr docs)), (''source_image'', source_image),
      (''method'', PStr meth)]"

text \<open>\<^verbatim>\<open>{**classified_item, "is_vegetarian": ..., "currency": "USD", ...}\<close>.\<close>

definition all_items_entry :: "pydict \<Rightarrow> pyval \<Rightarrow> string list \<Rightarrow> pyval \<Rightarrow> pydict" where
  "all_items_entry ci is_veg related category =
     ci @ [(''is_vegetarian'', is_veg), (''currency'', PStr ''USD''),
           (''related_ingredients'', PList (map PStr related)), (''category'', category)]"

text \<open>
  The three-way test that closes the loop body of the sequential strategy and of the
  second pass of the batch strategy.
\<close>

definition bucket_item ::
  "settings \<Rightarrow> nat \<Rightarrow> pydict \<Rightarrow> pyval \<Rightarrow> real \<Rightarrow> tagged classification \<Rightarrow> tagged classification" where
  "bucket_item st i ci is_veg conf b =
     (if is_veg = PNone \<or> conf < hitl_threshold st then
        b\<lparr>uncertain_items := uncertain_items b @ [(i, ci @ [(''suggested_classification'', is_veg)])]\<rparr>
      else if truthy is_veg then
        b\<lparr>vegetarian_items := vegetarian_items b @ [(i, ci)]\<rparr>
      else
        b\<lparr>non_vegetarian_items := non_vegetarian_items b @ [(i, ci)]\<rparr>)"

text \<open>A \<^verbatim>\<open>for\<close> loop whose body may raise: the first exception ends it.\<close>

fun for_each :: "('s \<Rightarrow> 'x \<Rightarrow> py_error + 's) \<Rightarrow> 'x list \<Rightarrow> 's \<Rightarrow> py_error + 's" where
  "for_each body [] s = Inr s"
| "for_each body (x # xs) s =
     (case body s x of Inl e \<Rightarrow> Inl e | Inr s' \<Rightarrow> for_each body xs s')"

subsection \<open>Sequential strategy\<close>

text \<open>
  The loop body of \<^verbatim>\<open>_execute_sequential\<close> for the item at position \<open>i\<close>.  A name that
  is no string raises at \<^verbatim>\<open>dish_name.lower()\<close>, the first use of it.
\<close>

definition sequential_step ::
  "classifier \<Rightarrow> env \<Rightarrow> settings \<Rightarrow> tagged classification \<Rightarrow> nat \<times> pydict \<Rightarrow> py_error + tagged classification" where
  "sequential_step cl ev st b x =
     (case x of (i, item) \<Rightarrow>
        (let name = dict_get item ''name'' (PStr []);
             price = dict_get item ''price'' (PNum 0);
             source_image = dict_get item ''source_image'' (PNum 1)
         in case name of
              PStr dish_name \<Rightarrow>
                (case classify cl ev st i dish_name of
                   Inl e \<Rightarrow> Inl e
                 | Inr result \<Rightarrow>
                     (let ci = classified_item name price (confidence result) (reasoning result)
                                 (evidence result) source_image (method_name result);
                          is_veg = is_vegetarian result;
                          conf = confidence result;
                          b' = b\<lparr>all_items := all_items b @ [(i, all_items_entry ci is_veg [] PNone)]\<rparr>
                      in Inr (bucket_item st i ci is_veg conf b')))
            | _ \<Rightarrow> Inl AttributeError))"

definition execute_sequential ::
  "classifier \<Rightarrow> env \<Rightarrow> settings \<Rightarrow> pydict list \<Rightarrow> py_error + tagged classification" where
  "execute_sequential cl ev st items =
     for_each (sequential_step cl ev st) (enumerate 0 items) no_items"

subsection \<open>Batch strategy\<close>

record llm_item =
  li_name :: string
  li_price :: pyval
  li_source_image :: pyval
  li_evidence :: "rag_hit list"
  li_rag_result :: tier
  li_related_ingredients :: "string list"

text \<open>The first loop of \<^verbatim>\<open>_execute_with_batch\<close>, over the buckets and \<^verbatim>\<open>needs_llm\<close>.\<close>

definition first_pass_step ::
  "classifier \<Rightarrow> env \<Rightarrow> settings \<Rightarrow> tagged classification \<times> (nat \<times> llm_item) list \<Rightarrow> nat \<times> pydict
     \<Rightarrow> py_error + tagged classification \<times> (nat \<times> llm_item) list" where
  "first_pass_step cl ev st s x =
     (case s of (b, needs_llm) \<Rightarrow> case x of (i, item) \<Rightarrow>
        (let name = dict_get item ''name'' (PStr []);
             price = dict_get item ''price'' (PNum 0);
             source_image = dict_get item ''source_image'' (PNum 1)
         in case name of
              PStr dish_name \<Rightarrow>
                (let keyword_result = keyword_classification cl dish_name in
                 if 9 / 10 \<le> confidence keyword_result then
                   (let ci = classified_item name price (confidence keyword_result)
                               (reasoning keyword_result) [] source_image ''keyword'';
                        b' = b\<lparr>all_items := all_items b
                                  @ [(i, all_items_entry ci (is_vegetarian keyword_result) [] PNone)]\<rparr>
                    in if truthy (is_vegetarian keyword_result)
                       then Inr (b'\<lparr>vegetarian_items := vegetarian_items b' @ [(i, ci)]\<rparr>, needs_llm)
                       else Inr (b'\<lparr>non_vegetarian_items := non_vegetarian_items b' @ [(i, ci)]\<rparr>,
                                 needs_llm))
                 else
                   (let rag_evidence = retrieve_evidence ev st dish_name;
                        rag_result = analyze_rag_evidence rag_evidence;
                        related_ingredients =
                          map (\<lambda>e. md_name (hit_metadata e))
                            (filter (\<lambda>e. md_type (hit_metadata e) = ''ingredient'') (take 3 rag_evidence));
                        deferred =
                          \<lparr>li_name = dish_name, li_price = price, li_source_image = source_image,
                           li_evidence = rag_evidence, li_rag_result = rag_result,
                           li_related_ingredients = related_ingredients\<rparr>
                    in if confidence_threshold st \<le> confidence rag_result then
                         (let ci = classified_item name price (confidence rag_result)
                                     (reasoning rag_result) (map document (take 3 rag_evidence))
                                     source_image ''rag'';
                              category = (case rag_evidence of
                                            [] \<Rightarrow> PNone
                                          | e # es \<Rightarrow> PStr (md_category (hit_metadata e)));
                              b' = b\<lparr>all_items := all_items b
                                        @ [(i, all_items_entry ci (is_vegetarian rag_result)
                                                 related_ingredients category)]\<rparr>
                          in if truthy (is_vegetarian rag_result)
                             then Inr (b'\<lparr>vegetarian_items := vegetarian_items b' @ [(i, ci)]\<rparr>, needs_llm)
                             else if is_vegetarian rag_result = PBool False
                             then Inr (b'\<lparr>non_vegetarian_items := non_vegetarian_items b' @ [(i, ci)]\<rparr>,
                                       needs_llm)
                             else Inr (b', needs_llm @ [(i, deferred)]))
                       else Inr (b, needs_llm @ [(i, deferred)])))
            | _ \<Rightarrow> Inl AttributeError))"

text \<open>
  The inner loop of the second pass, for one item of a batch.  \<open>empty_dict\<close> stands for
  the \<^verbatim>\<open>{}\<close> that \<^verbatim>\<open>llm_results.get(name, {})\<close> gives for a missing name: it has no
  verdict, and nothing else of it is read.  \<open>no_keyword\<close> is the literal first argument
  of the call of \<^verbatim>\<open>_combine_results\<close>.
\<close>

definition empty_dict :: tier where
  "empty_dict = \<lparr>is_vegetarian = PNone, confidence = 0, reasoning = PNone, method_name = []\<rparr>"

definition no_keyword :: tier where
  "no_keyword = \<lparr>is_vegetarian = PNone, confidence = 0, reasoning = PStr [], method_name = []\<rparr>"

definition second_pass_step ::
  "settings \<Rightarrow> (string \<rightharpoonup> tier) \<Rightarrow> tagged classification \<Rightarrow> nat \<times> llm_item \<Rightarrow> py_error + tagged classification" where
  "second_pass_step st llm_results b x =
     (case x of (i, item) \<Rightarrow>
        (let name = li_name item;
             llm_result = (case llm_results name of None \<Rightarrow> empty_dict | Some r \<Rightarrow> r);
             rag_result = li_rag_result item
         in case combine_results no_keyword rag_result llm_result of
              Inl e \<Rightarrow> Inl e
            | Inr combined \<Rightarrow>
                (let ci = classified_item (PStr name) (li_price item) (confidence combined)
                            (reasoning combined) (map document (take 3 (li_evidence item)))
                            (li_source_image item) ''llm_batch'';
                     is_veg = is_vegetarian combined;
                     conf = confidence combined;
                     b' = b\<lparr>all_items := all_items b
                               @ [(i, all_items_entry ci is_veg (li_related_ingredients item) PNone)]\<rparr>
                 in Inr (bucket_item st i ci is_veg conf b'))))"

text \<open>\<^verbatim>\<open>range(0, n, step)\<close>: a zero step raises, a negative one gives no index.\<close>

definition py_range0 :: "nat \<Rightarrow> int \<Rightarrow> py_error + nat list" where
  "py_range0 n step =
     (if step = 0 then Inl ValueError
      else if step < 0 then Inr []
      else Inr (map (\<lambda>j. j * nat step) [0 ..< (n + nat step - 1) div nat step]))"

text \<open>The body of the loop over the batches; \<open>i\<close> is the index the batch starts at.\<close>

definition batch_step ::
  "env \<Rightarrow> settings \<Rightarrow> (nat \<times> llm_item) list \<Rightarrow> tagged classification \<Rightarrow> nat \<Rightarrow> py_error + tagged classification" where
  "batch_step ev st needs_llm b i =
     (let batch_size = nat (llm_batch_size st);
          batch = take batch_size (drop i needs_llm);
          batch_items = map (\<lambda>(j, item). \<lparr>bi_name = li_name item, bi_evidence = li_evidence item\<rparr>) batch;
          llm_results = classify_batch_llm ev (i div batch_size) batch_items
      in for_each (second_pass_step st llm_results) batch b)"

definition execute_with_batch ::
  "classifier \<Rightarrow> env \<Rightarrow> settings \<Rightarrow> pydict list \<Rightarrow> py_error + tagged classification" where
  "execute_with_batch cl ev st items =
     (case for_each (first_pass_step cl ev st) (enumerate 0 items) (no_items, []) of
        Inl e \<Rightarrow> Inl e
      | Inr (b, needs_llm) \<Rightarrow>
          if needs_llm = [] then Inr b
          else
            (case py_range0 (length needs_llm) (llm_batch_size st) of
               Inl e \<Rightarrow> Inl e
             | Inr starts \<Rightarrow> for_each (batch_step ev st needs_llm) starts b))"

definition classifier_execute ::
  "classifier \<Rightarrow> env \<Rightarrow> settings \<Rightarrow> pydict list \<Rightarrow> py_error + tagged classification" where
  "classifier_execute cl ev st items =
     (if llm_batch_enabled st then execute_with_batch cl ev st items
      else execute_sequential cl ev st items)"

text \<open>What the caller receives: the dictionaries, without the positions.\<close>

definition untagged :: "tagged classification \<Rightarrow> pydict classification" where
  "untagged b =
     \<lparr>vegetarian_items = map snd (vegetarian_items b),
      non_vegetarian_items = map snd (non_vegetarian_items b),
      uncertain_items = map snd (uncertain_items b),
      all_items = map snd (all_items b)\<rparr>"

section \<open>The endpoint \<^verbatim>\<open>classify_and_calculate\<close>\<close>

datatype response =
    Needs_review (confident_items: "pydict list") (review_items: "pydict list")
      (partial_sum: real) (response_all_items: "pydict list")
  | Success (success_items: "pydict list") (success_total_sum: real)
      (response_all_items: "pydict list")

fun status :: "response \<Rightarrow> string" where
  "status (Needs_review c u p a) = ''needs_review''"
| "status (Success v t a) = ''success''"

definition classify_and_calculate ::
  "classifier \<Rightarrow> env \<Rightarrow> settings \<Rightarrow> pydict list \<Rightarrow> py_error + response" where
  "classify_and_calculate cl ev st items =
     (case classifier_execute cl ev st items of
        Inl e \<Rightarrow> Inl e
      | Inr b \<Rightarrow>
          (let classification = untagged b in
           if uncertain_items classification \<noteq> [] then
             (let confident = vegetarian_items classification;
                  psum = total_sum (calculator_execute confident)
              in Inr (Needs_review confident (uncertain_items classification) psum
                        (all_items classification)))
           else
             (let result = calculator_execute (vegetarian_items classification)
              in Inr (Success (vegetarian_items classification) (total_sum result)
                        (all_items classification)))))"

section \<open>Readings of the specification\<close>

subsection \<open>Corrections\<close>

text \<open>
  The key under which a correction is stored, when it has a string name; a correction
  is well formed when it has such a name and a value for \<^verbatim>\<open>is_vegetarian\<close>.
  \<open>last_of_each_name\<close> keeps, of the corrections with one key, only the last.
\<close>

definition correction_key :: "pydict \<Rightarrow> string option" where
  "correction_key c = (case dict_item c ''name'' of Inr (PStr n) \<Rightarrow> Some (lower n) | _ \<Rightarrow> None)"

definition well_formed_correction :: "pydict \<Rightarrow> bool" where
  "well_formed_correction c = (correction_key c \<noteq> None \<and> map_of c ''is_vegetarian'' \<noteq> None)"

fun last_of_each_name :: "pydict list \<Rightarrow> pydict list" where
  "last_of_each_name [] = []"
| "last_of_each_name (c # cs) =
     (if correction_key c \<in> set (map correction_key cs) then last_of_each_name cs
      else c # last_of_each_name cs)"

definition store_correction :: "(string \<rightharpoonup> pyval) \<Rightarrow> pydict \<Rightarrow> (string \<rightharpoonup> pyval)" where
  "store_correction m c = m(the (correction_key c) \<mapsto> the (map_of c ''is_vegetarian''))"

subsection \<open>Weighted vote\<close>

text \<open>
  The share of a tier in the denominator and in the numerator of the vote \<open>p\<close>; a tier
  without a verdict has no share.
\<close>

definition tier_weight :: "tier \<Rightarrow> real \<Rightarrow> real" where
  "tier_weight t w = (if is_vegetarian t = PNone then 0 else confidence t * w)"

definition tier_vote :: "tier \<Rightarrow> real \<Rightarrow> real" where
  "tier_vote t w =
     (if is_vegetarian t = PNone then 0
      else (if truthy (is_vegetarian t) then 1 else 0) * confidence t * w)"

definition total_weight :: "tier \<Rightarrow> tier \<Rightarrow> tier \<Rightarrow> real" where
  "total_weight k r l = tier_weight k (4 / 10) + tier_weight r (3 / 10) + tier_weight l (3 / 10)"

definition weighted_sum :: "tier \<Rightarrow> tier \<Rightarrow> tier \<Rightarrow> real" where
  "weighted_sum k r l = tier_vote k (4 / 10) + tier_vote r (3 / 10) + tier_vote l (3 / 10)"

subsection \<open>Buckets and positions\<close>

text \<open>
  The positions of the items in the three buckets, and what it means for a dictionary
  built at position \<open>i\<close> to carry the name and the price of the \<open>i\<close>-th item of the
  request.
\<close>

definition bucket_tags :: "tagged classification \<Rightarrow> nat list" where
  "bucket_tags b = map fst (vegetarian_items b @ non_vegetarian_items b @ uncertain_items b)"

definition carries :: "pydict list \<Rightarrow> tagged \<Rightarrow> bool" where
  "carries items x =
     (case x of (i, d) \<Rightarrow>
        i < length items
        \<and> map_of d ''name'' = Some (dict_get (items ! i) ''name'' (PStr []))
        \<and> map_of d ''price'' = Some (dict_get (items ! i) ''price'' (PNum 0)))"

definition buckets_carry :: "pydict list \<Rightarrow> tagged classification \<Rightarrow> bool" where
  "buckets_carry items b =
     list_all (carries items)
       (vegetarian_items b @ non_vegetarian_items b @ uncertain_items b @ all_items b)"

definition needs_carry :: "pydict list \<Rightarrow> (nat \<times> llm_item) list \<Rightarrow> bool" where
  "needs_carry items needs_llm =
     list_all (\<lambda>(i, li). i < length items
                 \<and> PStr (li_name li) = dict_get (items ! i) ''name'' (PStr [])
                 \<and> li_price li = dict_get (items ! i) ''price'' (PNum 0)) needs_llm"

text \<open>
  The first pass of the batch strategy reports an item in \<^verbatim>\<open>all_items\<close> when the keyword
  tier or the RAG tier is decisive for it, and sends it to the language model when
  neither gave it a bucket.
\<close>

definition keyword_decisive :: "classifier \<Rightarrow> string \<Rightarrow> bool" where
  "keyword_decisive cl dish_name = (9 / 10 \<le> confidence (keyword_classification cl dish_name))"

definition rag_of :: "env \<Rightarrow> settings \<Rightarrow> string \<Rightarrow> tier" where
  "rag_of ev st dish_name = analyze_rag_evidence (retrieve_evidence ev st dish_name)"

definition decided_before_llm :: "classifier \<Rightarrow> env \<Rightarrow> settings \<Rightarrow> pydict \<Rightarrow> bool" where
  "decided_before_llm cl ev st item =
     (case dict_get item ''name'' (PStr []) of
        PStr dish_name \<Rightarrow>
          keyword_decisive cl dish_name
          \<or> confidence_threshold st \<le> confidence (rag_of ev st dish_name)
      | _ \<Rightarrow> False)"

definition sent_to_llm :: "classifier \<Rightarrow> env \<Rightarrow> settings \<Rightarrow> pydict \<Rightarrow> bool" where
  "sent_to_llm cl ev st item =
     (case dict_get item ''name'' (PStr []) of
        PStr dish_name \<Rightarrow>
          \<not> keyword_decisive cl dish_name
          \<and> (confidence_threshold st \<le> confidence (rag_of ev st dish_name)
               \<longrightarrow> \<not> truthy (is_vegetarian (rag_of ev st dish_name))
                   \<and> is_vegetarian (rag_of ev st dish_name) \<noteq> PBool False)
      | _ \<Rightarrow> True)"

section \<open>Example data\<close>

text \<open>The keyword sets of the repository's tests.\<close>

definition example_classifier :: classifier where
  "example_classifier =
     init_classifier [''vegetarian'', ''veggie'', ''vegan''] [''chicken'', ''beef'', ''fish'']
       [''(v)'', ''[v]'']"

definition tofu_row :: stored_row where
  "tofu_row =
     \<lparr>row_id = ''ing_tofu'', row_document = ''Tofu: soybean curd'',
      row_metadata = \<lparr>md_name = ''Tofu'', md_is_vegetarian = PBool True, md_category = ''protein'',
                      md_type = ''ingredient'', md_notes = []\<rparr>,
      row_distance = 4 / 10\<rparr>"

definition fish_sauce_row :: stored_row where
  "fish_sauce_row =
     \<lparr>row_id = ''ing_fish_sauce'', row_document = ''Fish Sauce: fermented fish'',
      row_metadata = \<lparr>md_name = ''Fish Sauce'', md_is_vegetarian = PBool False,
                      md_category = ''condiment'', md_type = ''ingredient'', md_notes = []\<rparr>,
      row_distance = 6 / 10\<rparr>"

definition far_row :: stored_row where
  "far_row = tofu_row\<lparr>row_distance := 3 / 2\<rparr>"

definition pad_thai_reply :: string where
  \<open>pad_thai_reply = ''{"is_vegetarian": false, "confidence": -0.5, "reasoning": "fish sauce"}''\<close>

definition pad_thai_json :: pyval where
  "pad_thai_json =
     PDict [(''is_vegetarian'', PBool False), (''confidence'', PNum (- (1 / 2))),
            (''reasoning'', PStr ''fish sauce'')]"

text \<open>
  A store that answers the query \<open>Pad Thai\<close> with two near rows and every other query
  with one row at distance 1.5, and a language model that answers \<open>Pad Thai\<close> with a JSON
  object of negative confidence, every other single prompt with text that holds no JSON,
  and every batch prompt with an empty array.
\<close>

definition example_env :: env where
  "example_env =
     \<lparr>collection_query = (\<lambda>q n. if q = ''Pad Thai'' then [tofu_row, fish_sauce_row] else [far_row]),
      generate_single =
        (\<lambda>c name evidence. Inr (if name = ''Pad Thai'' then pad_thai_reply else ''no idea'')),
      generate_batch = (\<lambda>c names. Inr ''[]''),
      json_object_in = (\<lambda>r. if r = pad_thai_reply then Some pad_thai_json else None),
      json_array_in = (\<lambda>r. if r = ''[]'' then Some (PList []) else None),
      float_of_str = (\<lambda>s. None)\<rparr>"


definition mystery_bowl :: pydict where
  "mystery_bowl =
     [(''name'', PStr ''Chef Mystery Bowl''), (''price'', PNum 9), (''source_image'', PNum 1)]"

definition veggie_burger :: pydict where
  "veggie_burger =
     [(''name'', PStr ''Veggie Burger (V)''), (''price'', PNum 12), (''source_image'', PNum 1)]"

definition example_menu :: "pydict list" where
  "example_menu = [mystery_bowl, veggie_burger]"

definition soup :: pydict where
  "soup = [(''name'', PStr ''Soup''), (''price'', PNum (- 5)), (''source_image'', PNum 1)]"

definition soup_is_vegetarian :: pydict where
  "soup_is_vegetarian = [(''name'', PStr ''Soup''), (''is_vegetarian'', PBool True)]"

definition burger_not_vegetarian :: pydict where
  "burger_not_vegetarian = [(''name'', PStr ''veggie burger (v)''), (''is_vegetarian'', PBool False)]"

definition burger_vegetarian :: pydict where
  "burger_vegetarian = [(''name'', PStr ''VEGGIE BURGER (V)''), (''is_vegetarian'', PBool True)]"



section \<open>Properties of the calculator\<close>



text \<open>
  C3.  The total of \<open>recompute_with_corrections\<close> is not the calculator's total over the
  items it returns: for a soup priced \<open>-5\<close> that a correction marks vegetarian it returns
  the soup with the total \<open>-5\<close>, where the calculator's total over that list is 0.
\<close>

theorem recompute_keeps_negative_price:
  "recompute_with_corrections [soup] [soup_is_vegetarian] =
     Inr \<lparr>rc_vegetarian_items = [human_verified (PStr ''Soup'') soup], rc_total_sum = - 5,
          corrections_applied = 1\<rparr>
   \<and> total_sum (calculator_execute [human_verified (PStr ''Soup'') soup]) = 0"
  by code_simp

subsection \<open>Duplicate corrections\<close>

lemma correction_map_well_formed:
  "list_all well_formed_correction cs \<Longrightarrow> correction_map cs m = Inr (foldl store_correction m cs)"
proof (induction cs arbitrary: m)
  case Nil
  show ?case by simp
next
  case (Cons c cs)
  from Cons.prems obtain n v where n: "dict_item c ''name'' = Inr (PStr n)"
    and v: "map_of c ''is_vegetarian'' = Some v"
    by (auto simp: well_formed_correction_def correction_key_def split: sum.splits pyval.splits)
  have "correction_map (c # cs) m = correction_map cs (m(lower n \<mapsto> v))"
    using n v by (simp add: dict_item_def)
  also have "\<dots> = Inr (foldl store_correction (m(lower n \<mapsto> v)) cs)"
    using Cons.IH Cons.prems by simp
  also have "m(lower n \<mapsto> v) = store_correction m c"
    using n v by (simp add: store_correction_def correction_key_def)
  finally show ?case by simp
qed

lemma store_shadowed:
  "correction_key c \<in> set (map correction_key cs) \<Longrightarrow>
   foldl store_correction (store_correction m c) cs = foldl store_correction m cs"
proof (induction cs arbitrary: m)
  case Nil
  then show ?case by simp
next
  case (Cons d cs)
  show ?case
  proof (cases "the (correction_key d) = the (correction_key c)")
    case True
    then have "store_correction (store_correction m c) d = store_correction m d"
      by (simp add: store_correction_def)
    then show ?thesis by simp
  next
    case False
    then have in_cs: "correction_key c \<in> set (map correction_key cs)"
      using Cons.prems by auto
    from False have "store_correction (store_correction m c) d = store_correction (store_correction m d) c"
      by (auto simp: store_correction_def)
    then show ?thesis using Cons.IH [OF in_cs, of "store_correction m d"] by simp
  qed
qed

lemma foldl_last_of_each_name:
  "foldl store_correction m (last_of_each_name cs) = foldl store_correction m cs"
proof (induction cs arbitrary: m)
  case Nil
  show ?case by simp
next
  case (Cons c cs)
  show ?case
  proof (cases "correction_key c \<in> set (map correction_key cs)")
    case True
    then show ?thesis using Cons.IH [of m] store_shadowed [of c cs m] by simp
  next
    case False
    then show ?thesis using Cons.IH [of "store_correction m c"] by simp
  qed
qed

lemma set_last_of_each_name: "set (last_of_each_name cs) \<subseteq> set cs"
  by (induction cs) auto

lemma correction_map_last_of_each_name:
  assumes "list_all well_formed_correction cs"
  shows "correction_map (last_of_each_name cs) m = correction_map cs m"
proof -
  have "list_all well_formed_correction (last_of_each_name cs)"
    using assms set_last_of_each_name [of cs] by (auto simp: list_all_iff)
  then show ?thesis
    using assms by (simp add: correction_map_well_formed foldl_last_of_each_name)
qed

text \<open>
  C10.  For every list of items and every list of well-formed corrections,
  \<open>recompute_with_corrections\<close> gives the vegetarian items and the total (or the
  exception) it gives when, of the corrections whose names are equal without regard to
  case, only the last is submitted; and \<open>corrections_applied\<close> is the number of
  corrections submitted, duplicates included.
\<close>

theorem duplicate_corrections_last_wins:
  assumes "list_all well_formed_correction corrections"
  shows "map_sum id (\<lambda>r. (rc_vegetarian_items r, rc_total_sum r))
           (recompute_with_corrections items corrections)
         = map_sum id (\<lambda>r. (rc_vegetarian_items r, rc_total_sum r))
             (recompute_with_corrections items (last_of_each_name corrections))
       \<and> (\<forall>r. recompute_with_corrections items corrections = Inr r
              \<longrightarrow> corrections_applied r = length corrections)"
proof -
  have "correction_map (last_of_each_name corrections) Map.empty = correction_map corrections Map.empty"
    using assms by (rule correction_map_last_of_each_name)
  then show ?thesis
    by (auto simp: recompute_with_corrections_def split: sum.splits)
qed

text \<open>
  Two corrections for the burger, the later one in another case: the result is that of
  the later one alone, and two corrections are counted.
\<close>

theorem duplicate_corrections_last_wins_witness:
  "list_all well_formed_correction [burger_not_vegetarian, burger_vegetarian]
   \<and> last_of_each_name [burger_not_vegetarian, burger_vegetarian] = [burger_vegetarian]
   \<and> map_sum id (\<lambda>r. (rc_vegetarian_items r, rc_total_sum r))
        (recompute_with_corrections [veggie_burger] [burger_not_vegetarian, burger_vegetarian])
      = map_sum id (\<lambda>r. (rc_vegetarian_items r, rc_total_sum r))
          (recompute_with_corrections [veggie_burger] [burger_vegetarian])
   \<and> map_sum id (\<lambda>r. (rc_total_sum r, corrections_applied r))
        (recompute_with_corrections [veggie_burger] [burger_not_vegetarian, burger_vegetarian])
      = Inr (12, 2)"
proof -
  have wf: "list_all well_formed_correction [burger_not_vegetarian, burger_vegetarian]"
    by code_simp
  have l: "last_of_each_name [burger_not_vegetarian, burger_vegetarian] = [burger_vegetarian]"
    by code_simp
  have n: "map_sum id (\<lambda>r. (rc_total_sum r, corrections_applied r))
        (recompute_with_corrections [veggie_burger] [burger_not_vegetarian, burger_vegetarian])
      = Inr (12, 2)"
    by code_simp
  from duplicate_corrections_last_wins [OF wf, of "[veggie_burger]"] wf l n
  show ?thesis by simp
qed

section \<open>Properties of the endpoint\<close>

text \<open>
  C1.  Whenever the classifier tool returns, \<open>classify_and_calculate\<close> answers
  \<open>needs_review\<close> with \<open>partial_sum\<close> the calculator's total over the confident
  vegetarian items if the uncertain bucket is not empty, and \<open>success\<close> with
  \<open>total_sum\<close> computed in the same way if it is empty.
\<close>

theorem classify_and_calculate_hitl:
  assumes "classifier_execute cl ev st items = Inr b"
  shows "classify_and_calculate cl ev st items =
     Inr (if uncertain_items b \<noteq> []
          then Needs_review (map snd (vegetarian_items b)) (map snd (uncertain_items b))
                 (total_sum (calculator_execute (map snd (vegetarian_items b))))
                 (map snd (all_items b))
          else Success (map snd (vegetarian_items b))
                 (total_sum (calculator_execute (map snd (vegetarian_items b))))
                 (map snd (all_items b)))"
  using assms by (simp add: classify_and_calculate_def untagged_def Let_def)

text \<open>
  The example menu under the default settings: the bowl is uncertain, the burger is
  vegetarian, and the answer is \<open>needs_review\<close> with the burger's price as partial sum.
\<close>

theorem classify_and_calculate_hitl_witness:
  "\<exists>r. classify_and_calculate example_classifier example_env default_settings example_menu = Inr r
       \<and> status r = ''needs_review'' \<and> partial_sum r = 12"
proof -
  have "map_sum id
          (\<lambda>b. (length (uncertain_items b),
                 total_sum (calculator_execute (map snd (vegetarian_items b)))))
          (classifier_execute example_classifier example_env default_settings example_menu)
        = Inr (1, 12)"
    by code_simp
  then obtain b where
    b: "classifier_execute example_classifier example_env default_settings example_menu = Inr b"
    and u: "length (uncertain_items b) = 1"
    and t: "total_sum (calculator_execute (map snd (vegetarian_items b))) = 12"
    by (cases "classifier_execute example_classifier example_env default_settings example_menu") auto
  from u have "uncertain_items b \<noteq> []" by auto
  with classify_and_calculate_hitl [OF b] t show ?thesis by simp
qed

section \<open>Properties of the keyword tier\<close>

text \<open>
  C7.  For every dish name whose lower-cased form contains a vegetarian marker as a
  substring, the keyword tier returns \<open>is_vegetarian = True\<close> with confidence 0.95,
  whatever positive or negative keywords the name contains as well.
\<close>

theorem keyword_marker_precedence:
  assumes "marker \<in> set (vegetarian_markers cl)" and "sublist marker (lower dish_name)"
  shows "is_vegetarian (keyword_classification cl dish_name) = PBool True
       \<and> confidence (keyword_classification cl dish_name) = 95 / 100"
proof -
  from assms obtain m where
    "find (\<lambda>marker. sublist marker (lower dish_name)) (vegetarian_markers cl) = Some m"
    by (cases "find (\<lambda>marker. sublist marker (lower dish_name)) (vegetarian_markers cl)")
       (auto simp: find_None_iff)
  then show ?thesis
    by (simp add: keyword_classification_def keyword_hit_def)
qed

text \<open>A name with the marker \<open>(v)\<close> and the negative keyword \<open>chicken\<close>.\<close>

theorem keyword_marker_precedence_witness:
  "''(v)'' \<in> set (vegetarian_markers example_classifier)
   \<and> sublist ''(v)'' (lower ''Veggie Chicken Tenders (V)'')
   \<and> search_word ''chicken'' (lower ''Veggie Chicken Tenders (V)'')
   \<and> is_vegetarian (keyword_classification example_classifier ''Veggie Chicken Tenders (V)'') = PBool True
   \<and> confidence (keyword_classification example_classifier ''Veggie Chicken Tenders (V)'') = 95 / 100"
proof -
  have m: "''(v)'' \<in> set (vegetarian_markers example_classifier)"
    by code_simp
  have s: "sublist ''(v)'' (lower ''Veggie Chicken Tenders (V)'')"
    by code_simp
  have n: "search_word ''chicken'' (lower ''Veggie Chicken Tenders (V)'')"
    by code_simp
  from keyword_marker_precedence [OF m s] m s n show ?thesis by blast
qed

section \<open>Properties of the vector store\<close>




section \<open>Properties of the weighted combination\<close>







text \<open>
  C9.  A reply of the language model with the confidence \<open>-0.5\<close> passes the parser
  unchanged, and \<open>classify\<close> then returns for \<open>Pad Thai\<close> a combined result of confidence
  23: the combined confidence is not clamped to \<open>[0, 1]\<close>.
\<close>

theorem combined_confidence_exceeds_one:
  "parse_llm_response example_env pad_thai_reply =
     Inr \<lparr>is_vegetarian = PBool False, confidence = - (1 / 2), reasoning = PStr ''fish sauce'',
          method_name = ''llm''\<rparr>
   \<and> map_sum id (\<lambda>r. (method_name r, confidence r, 1 < confidence r))
        (classify example_classifier example_env default_settings 0 ''Pad Thai'')
      = Inr (''combined'', 23, True)"
  by code_simp

section \<open>Properties of the classifier tool\<close>

lemma for_each_invariant:
  assumes "for_each body xs s = Inr s'" and "I ys s"
    and "\<And>ys x s s'. I ys s \<Longrightarrow> x \<in> set xs \<Longrightarrow> body s x = Inr s' \<Longrightarrow> I (ys @ [x]) s'"
  shows "I (ys @ xs) s'"
  using assms
proof (induction xs arbitrary: ys s)
  case Nil
  then show ?case by simp
next
  case (Cons x xs)
  from Cons.prems(1) obtain s1 where s1: "body s x = Inr s1" and rest: "for_each body xs s1 = Inr s'"
    by (auto split: sum.splits)
  have "I (ys @ [x]) s1" using Cons.prems(2,3) s1 by simp
  then have "I ((ys @ [x]) @ xs) s'"
    using rest Cons.prems(3) by (intro Cons.IH) auto
  then show ?case by simp
qed

lemma enumerate_member: "(i, x) \<in> set (enumerate 0 xs) \<Longrightarrow> i < length xs \<and> x = xs ! i"
  by (auto simp: in_set_enumerate_eq)

lemma carries_classified_item:
  "i < length items \<Longrightarrow> name = dict_get (items ! i) ''name'' (PStr []) \<Longrightarrow>
   price = dict_get (items ! i) ''price'' (PNum 0) \<Longrightarrow>
   carries items (i, classified_item name price c r d s m @ extra)"
  by (simp add: carries_def classified_item_def)

lemma carries_all_items_entry:
  "carries items (i, ci) \<Longrightarrow> carries items (i, all_items_entry ci v rel cat)"
  by (auto simp: carries_def all_items_entry_def)

lemma bucket_item_tags:
  "mset (bucket_tags (bucket_item st i ci v c b)) = mset (bucket_tags b) + {#i#}"
  by (simp add: bucket_tags_def bucket_item_def)

lemma bucket_item_all_items:
  "all_items (bucket_item st i ci v c b) = all_items b"
  by (simp add: bucket_item_def)

lemma bucket_item_carry:
  "buckets_carry items b \<Longrightarrow> carries items (i, ci @ []) \<Longrightarrow>
   carries items (i, ci @ [(''suggested_classification'', v)]) \<Longrightarrow>
   buckets_carry items (bucket_item st i ci v c b)"
  by (auto simp: buckets_carry_def bucket_item_def)

subsection \<open>Sequential strategy\<close>

lemma sequential_step_effect:
  assumes "sequential_step cl ev st b (i, item) = Inr b'" and "i < length items" and "item = items ! i"
    and "buckets_carry items b"
  shows "mset (bucket_tags b') = mset (bucket_tags b) + {#i#}
       \<and> map fst (all_items b') = map fst (all_items b) @ [i]
       \<and> buckets_carry items b'"
proof -
  from assms(1) obtain dish_name and result :: classify_result where
    name: "dict_get item ''name'' (PStr []) = PStr dish_name"
    and b': "b' = bucket_item st i
                (classified_item (PStr dish_name) (dict_get item ''price'' (PNum 0)) (confidence result)
                   (reasoning result) (evidence result) (dict_get item ''source_image'' (PNum 1))
                   (method_name result))
                (is_vegetarian result) (confidence result)
                (b\<lparr>all_items := all_items b @
                     [(i, all_items_entry
                            (classified_item (PStr dish_name) (dict_get item ''price'' (PNum 0))
                               (confidence result) (reasoning result) (evidence result)
                               (dict_get item ''source_image'' (PNum 1)) (method_name result))
                            (is_vegetarian result) [] PNone)]\<rparr>)"
    by (auto simp: sequential_step_def Let_def split: pyval.splits sum.splits)
  let ?ci = "classified_item (PStr dish_name) (dict_get item ''price'' (PNum 0)) (confidence result)
                   (reasoning result) (evidence result) (dict_get item ''source_image'' (PNum 1))
                   (method_name result)"
  have c: "\<And>extra. carries items (i, ?ci @ extra)"
    using assms(2,3) name by (intro carries_classified_item) auto
  have c0: "carries items (i, ?ci)" using c [of "[]"] by simp
  have carry: "buckets_carry items (b\<lparr>all_items := all_items b @ [(i, all_items_entry ?ci (is_vegetarian result) [] PNone)]\<rparr>)"
    using assms(4) carries_all_items_entry [OF c0] by (simp add: buckets_carry_def)
  show ?thesis
    unfolding b'
    using bucket_item_carry [OF carry c c]
    by (simp add: bucket_item_tags bucket_item_all_items) (simp add: bucket_tags_def)
qed

lemma execute_sequential_effect:
  assumes "execute_sequential cl ev st items = Inr b"
  shows "mset (bucket_tags b) = mset [0 ..< length items]
       \<and> map fst (all_items b) = [0 ..< length items]
       \<and> buckets_carry items b"
proof -
  let ?I = "\<lambda>(ys :: (nat \<times> pydict) list) b. mset (bucket_tags b) = mset (map fst ys)
                  \<and> map fst (all_items b) = map fst ys \<and> buckets_carry items b"
  have "?I ([] @ enumerate 0 items) b"
  proof (rule for_each_invariant [where I = ?I and body = "sequential_step cl ev st" and s = no_items])
    show "for_each (sequential_step cl ev st) (enumerate 0 items) no_items = Inr b"
      using assms by (simp add: execute_sequential_def)
    show "?I [] no_items"
      by (simp add: bucket_tags_def no_items_def buckets_carry_def)
  next
    fix ys x s s'
    assume inv: "?I ys s" and mem: "x \<in> set (enumerate 0 items)"
      and step: "sequential_step cl ev st s x = Inr s'"
    obtain i item where x: "x = (i, item)" by (cases x)
    from mem x have "i < length items" "item = items ! i"
      using enumerate_member [of i item items] by blast+
    from sequential_step_effect [OF step [unfolded x] this] inv
    show "?I (ys @ [x]) s'" by (simp add: x)
  qed
  then show ?thesis by simp
qed

subsection \<open>Batch strategy\<close>

lemma first_pass_step_effect:
  assumes "first_pass_step cl ev st (b, needs_llm) (i, item) = Inr (b', needs_llm')"
    and "i < length items" and "item = items ! i"
    and "buckets_carry items b" and "needs_carry items needs_llm"
  shows "mset (bucket_tags b') + mset (map fst needs_llm')
           = mset (bucket_tags b) + mset (map fst needs_llm) + {#i#}
       \<and> map fst (all_items b') = map fst (all_items b) @ (if decided_before_llm cl ev st item then [i] else [])
       \<and> map fst needs_llm' = map fst needs_llm @ (if sent_to_llm cl ev st item then [i] else [])
       \<and> buckets_carry items b' \<and> needs_carry items needs_llm'"
proof -
  from assms(1) obtain dish_name where
    name: "dict_get item ''name'' (PStr []) = PStr dish_name"
    by (auto simp: first_pass_step_def Let_def split: pyval.splits)
  define price where "price = dict_get item ''price'' (PNum 0)"
  define source_image where "source_image = dict_get item ''source_image'' (PNum 1)"
  have c: "\<And>c r d s m extra. carries items (i, classified_item (PStr dish_name) price c r d s m @ extra)"
    using assms(2,3) name by (intro carries_classified_item) (auto simp: price_def)
  have c0: "\<And>c r d s m. carries items (i, classified_item (PStr dish_name) price c r d s m)"
    using c [of _ _ _ _ _ "[]"] by simp
  have ce: "\<And>c r d s m v rel cat. carries items (i, all_items_entry (classified_item (PStr dish_name) price c r d s m) v rel cat)"
    using c0 by (rule carries_all_items_entry)
  have nc: "\<And>e r rel. needs_carry items (needs_llm @ [(i, \<lparr>li_name = dish_name, li_price = price, li_source_image = source_image,
                           li_evidence = e, li_rag_result = r, li_related_ingredients = rel\<rparr>)])"
    using assms(2,3,5) name by (simp add: needs_carry_def price_def)
  show ?thesis
  proof (cases "keyword_decisive cl dish_name")
    case True
    then show ?thesis
      using assms(1,4,5) name c0 ce
      by (auto simp: first_pass_step_def Let_def keyword_decisive_def decided_before_llm_def
          sent_to_llm_def bucket_tags_def buckets_carry_def price_def split: if_splits)
  next
    case kw: False
    show ?thesis
    proof (cases "confidence_threshold st \<le> confidence (rag_of ev st dish_name)")
      case True
      then show ?thesis
        using assms(1,4,5) name c0 ce nc kw
        by (auto simp: first_pass_step_def Let_def keyword_decisive_def decided_before_llm_def
            sent_to_llm_def bucket_tags_def buckets_carry_def price_def source_image_def rag_of_def
            split: if_splits)
    next
      case False
      then show ?thesis
        using assms(1,4,5) name nc kw
        by (auto simp: first_pass_step_def Let_def keyword_decisive_def decided_before_llm_def
            sent_to_llm_def bucket_tags_def price_def source_image_def rag_of_def
            split: if_splits)
    qed
  qed
qed

lemma second_pass_step_effect:
  assumes "second_pass_step st llm_results b x = Inr b'"
    and "needs_carry items [x]" and "buckets_carry items b"
  shows "mset (bucket_tags b') = mset (bucket_tags b) + {#fst x#}
       \<and> map fst (all_items b') = map fst (all_items b) @ [fst x]
       \<and> buckets_carry items b'"
proof -
  obtain i item where x: "x = (i, item)" by (cases x)
  from assms(1) obtain combined :: tier where
    b': "b' = bucket_item st i
                (classified_item (PStr (li_name item)) (li_price item) (confidence combined)
                   (reasoning combined) (map document (take 3 (li_evidence item)))
                   (li_source_image item) ''llm_batch'')
                (is_vegetarian combined) (confidence combined)
                (b\<lparr>all_items := all_items b @
                     [(i, all_items_entry
                            (classified_item (PStr (li_name item)) (li_price item) (confidence combined)
                               (reasoning combined) (map document (take 3 (li_evidence item)))
                               (li_source_image item) ''llm_batch'')
                            (is_vegetarian combined) (li_related_ingredients item) PNone)]\<rparr>)"
    by (auto simp: second_pass_step_def x Let_def split: sum.splits)
  let ?ci = "classified_item (PStr (li_name item)) (li_price item) (confidence combined)
                   (reasoning combined) (map document (take 3 (li_evidence item)))
                   (li_source_image item) ''llm_batch''"
  have c: "\<And>extra. carries items (i, ?ci @ extra)"
    using assms(2) by (intro carries_classified_item) (auto simp: needs_carry_def x)
  have c0: "carries items (i, ?ci)" using c [of "[]"] by simp
  have carry: "buckets_carry items (b\<lparr>all_items := all_items b @
      [(i, all_items_entry ?ci (is_vegetarian combined) (li_related_ingredients item) PNone)]\<rparr>)"
    using assms(3) carries_all_items_entry [OF c0] by (simp add: buckets_carry_def)
  show ?thesis
    unfolding b'
    using bucket_item_carry [OF carry c c]
    by (simp add: bucket_item_tags bucket_item_all_items x) (simp add: bucket_tags_def)
qed

lemma second_pass_loop_effect:
  assumes "for_each (second_pass_step st llm_results) batch b = Inr b'"
    and "needs_carry items batch" and "buckets_carry items b"
  shows "mset (bucket_tags b') = mset (bucket_tags b) + mset (map fst batch)
       \<and> map fst (all_items b') = map fst (all_items b) @ map fst batch
       \<and> buckets_carry items b'"
  using assms
proof (induction batch arbitrary: b)
  case Nil
  then show ?case by simp
next
  case (Cons x batch)
  from Cons.prems(1) obtain b1 where b1: "second_pass_step st llm_results b x = Inr b1"
    and rest: "for_each (second_pass_step st llm_results) batch b1 = Inr b'"
    by (auto split: sum.splits)
  have x: "needs_carry items [x]" and tl: "needs_carry items batch"
    using Cons.prems(2) by (simp_all add: needs_carry_def)
  from second_pass_step_effect [OF b1 x Cons.prems(3)] Cons.IH [OF rest tl]
  show ?case by simp
qed

lemma batch_loop_effect:
  assumes "for_each (batch_step ev st needs_llm) starts b = Inr b'"
    and "needs_carry items needs_llm" and "buckets_carry items b"
  shows "mset (bucket_tags b') = mset (bucket_tags b)
            + mset (map fst (concat (map (\<lambda>i. take (nat (llm_batch_size st)) (drop i needs_llm)) starts)))
       \<and> map fst (all_items b') = map fst (all_items b)
            @ map fst (concat (map (\<lambda>i. take (nat (llm_batch_size st)) (drop i needs_llm)) starts))
       \<and> buckets_carry items b'"
  using assms
proof (induction starts arbitrary: b)
  case Nil
  then show ?case by simp
next
  case (Cons i starts)
  let ?batch = "take (nat (llm_batch_size st)) (drop i needs_llm)"
  from Cons.prems(1) obtain b1 where b1: "batch_step ev st needs_llm b i = Inr b1"
    and rest: "for_each (batch_step ev st needs_llm) starts b1 = Inr b'"
    by (auto split: sum.splits)
  from b1 obtain llm_results where
    inner: "for_each (second_pass_step st llm_results) ?batch b = Inr b1"
    by (auto simp: batch_step_def Let_def)
  have "set ?batch \<subseteq> set needs_llm"
    by (meson set_take_subset set_drop_subset subset_trans)
  then have carry: "needs_carry items ?batch"
    using Cons.prems(2) by (auto simp: needs_carry_def list_all_iff)
  from second_pass_loop_effect [OF inner carry Cons.prems(3)]
       Cons.IH [OF rest Cons.prems(2)]
  show ?case by simp
qed

lemma concat_batches:
  "concat (map (\<lambda>i. take n (drop i xs)) (map (\<lambda>j. j * n) [0 ..< k])) = take (k * n) xs"
proof (induction k)
  case 0
  show ?case by simp
next
  case (Suc k)
  have "take (k * n) xs @ take n (drop (k * n) xs) = take (k * n + n) xs"
    by (simp add: take_add)
  then show ?case using Suc by (simp add: add.commute)
qed

lemma range_covers: "0 < n \<Longrightarrow> m \<le> ((m + n - 1) div n) * (n::nat)"
proof -
  assume n: "0 < n"
  have "(m + n - 1) div n * n = (m + n - 1) - (m + n - 1) mod n"
    by (simp add: minus_mod_eq_div_mult)
  moreover have "(m + n - 1) mod n \<le> n - 1"
    using n by (simp add: Suc_leI le_diff_conv2 mod_less_divisor Suc_le_eq)
  ultimately show ?thesis using n by linarith
qed

lemma py_range0_batches:
  assumes "py_range0 (length xs) step = Inr starts" and "0 \<le> step"
  shows "concat (map (\<lambda>i. take (nat step) (drop i xs)) starts) = xs"
proof -
  from assms have pos: "0 < step" and
    starts: "starts = map (\<lambda>j. j * nat step) [0 ..< (length xs + nat step - 1) div nat step]"
    by (auto simp: py_range0_def split: if_splits)
  have "length xs \<le> ((length xs + nat step - 1) div nat step) * nat step"
    using pos by (intro range_covers) simp
  then show ?thesis
    unfolding starts concat_batches by simp
qed

lemma execute_with_batch_effect:
  assumes "execute_with_batch cl ev st items = Inr b" and "0 \<le> llm_batch_size st"
  shows "mset (bucket_tags b) = mset [0 ..< length items]
       \<and> map fst (all_items b)
           = map fst (filter (\<lambda>(i, item). decided_before_llm cl ev st item) (enumerate 0 items))
             @ map fst (filter (\<lambda>(i, item). sent_to_llm cl ev st item) (enumerate 0 items))
       \<and> buckets_carry items b"
proof -
  let ?I = "\<lambda>(ys :: (nat \<times> pydict) list) s.
      mset (bucket_tags (fst s)) + mset (map fst (snd s)) = mset (map fst ys)
      \<and> map fst (all_items (fst s)) = map fst (filter (\<lambda>(i, item). decided_before_llm cl ev st item) ys)
      \<and> map fst (snd s) = map fst (filter (\<lambda>(i, item). sent_to_llm cl ev st item) ys)
      \<and> buckets_carry items (fst s) \<and> needs_carry items (snd s)"
  from assms(1) obtain b1 needs_llm where
    first: "for_each (first_pass_step cl ev st) (enumerate 0 items) (no_items, []) = Inr (b1, needs_llm)"
    and second: "(if needs_llm = [] then Inr b1
                  else case py_range0 (length needs_llm) (llm_batch_size st) of
                         Inl e \<Rightarrow> Inl e
                       | Inr starts \<Rightarrow> for_each (batch_step ev st needs_llm) starts b1) = Inr b"
    by (auto simp: execute_with_batch_def split: sum.splits prod.splits)
  have "?I ([] @ enumerate 0 items) (b1, needs_llm)"
  proof (rule for_each_invariant [where I = ?I, OF first])
    show "?I [] (no_items, [])"
      by (simp add: bucket_tags_def no_items_def buckets_carry_def needs_carry_def)
  next
    fix ys x s s'
    assume inv: "?I ys s" and mem: "x \<in> set (enumerate 0 items)"
      and step: "first_pass_step cl ev st s x = Inr s'"
    obtain i item where x: "x = (i, item)" by (cases x)
    obtain b0 n0 where s: "s = (b0, n0)" by (cases s)
    obtain b2 n2 where s': "s' = (b2, n2)" by (cases s')
    from mem x have i: "i < length items" "item = items ! i"
      using enumerate_member [of i item items] by blast+
    from inv [unfolded s fst_conv snd_conv]
    have carry: "buckets_carry items b0" "needs_carry items n0" by blast+
    from first_pass_step_effect [OF step [unfolded x s s'] i carry]
    have e1: "mset (bucket_tags b2) + mset (map fst n2)
                = mset (bucket_tags b0) + mset (map fst n0) + {#i#}"
      and e2: "map fst (all_items b2)
                = map fst (all_items b0) @ (if decided_before_llm cl ev st item then [i] else [])"
      and e3: "map fst n2 = map fst n0 @ (if sent_to_llm cl ev st item then [i] else [])"
      and e4: "buckets_carry items b2" and e5: "needs_carry items n2"
      by blast+
    from inv [unfolded s fst_conv snd_conv]
    have i1: "mset (bucket_tags b0) + mset (map fst n0) = mset (map fst ys)"
      and i2: "map fst (all_items b0)
                = map fst (filter (\<lambda>(i, item). decided_before_llm cl ev st item) ys)"
      and i3: "map fst n0 = map fst (filter (\<lambda>(i, item). sent_to_llm cl ev st item) ys)"
      by blast+
    have "mset (bucket_tags b2) + mset (map fst n2) = mset (map fst ys) + {#i#}"
      by (simp only: e1 i1)
    then have g1: "mset (bucket_tags b2) + mset (map fst n2) = mset (map fst (ys @ [x]))"
      by (simp add: x)
    have g2: "map fst (all_items b2)
                = map fst (filter (\<lambda>(i, item). decided_before_llm cl ev st item) (ys @ [x]))"
      unfolding e2 i2 by (simp add: x)
    have g3: "map fst n2 = map fst (filter (\<lambda>(i, item). sent_to_llm cl ev st item) (ys @ [x]))"
      unfolding e3 i3 by (simp add: x)
    show "?I (ys @ [x]) s'"
      unfolding s' fst_conv snd_conv using g1 g2 g3 e4 e5 by blast
  qed
  from this [unfolded append_Nil fst_conv snd_conv]
  have inv: "mset (bucket_tags b1) + mset (map fst needs_llm) = mset (map fst (enumerate 0 items))"
    "map fst (all_items b1) = map fst (filter (\<lambda>(i, item). decided_before_llm cl ev st item) (enumerate 0 items))"
    "map fst needs_llm = map fst (filter (\<lambda>(i, item). sent_to_llm cl ev st item) (enumerate 0 items))"
    "buckets_carry items b1" "needs_carry items needs_llm"
    by blast+
  show ?thesis
  proof (cases "needs_llm = []")
    case True
    then show ?thesis using second inv by simp
  next
    case False
    with second obtain starts where
      starts: "py_range0 (length needs_llm) (llm_batch_size st) = Inr starts"
      and loop: "for_each (batch_step ev st needs_llm) starts b1 = Inr b"
      by (auto split: sum.splits)
    from batch_loop_effect [OF loop inv(5) inv(4)] py_range0_batches [OF starts assms(2)] inv
    show ?thesis by simp
  qed
qed



subsection \<open>Bucketing\<close>

lemma tags_partition:
  assumes "mset tags = mset [0 ..< n]"
  shows "length tags = n \<and> distinct tags \<and> set tags = {0 ..< n}"
proof -
  have "length tags = length [0 ..< n]"
    using assms by (rule mset_eq_length)
  moreover have "distinct tags"
    using assms by (metis distinct_upt mset_eq_imp_distinct_iff)
  moreover have "set tags = set [0 ..< n]"
    using assms by (rule mset_eq_setD)
  ultimately show ?thesis by simp
qed

text \<open>
  C5.  Whenever the classifier tool returns, under either strategy (the batch size not
  negative under the batch strategy), the sizes of the three buckets add up to the number
  of input items, no position occurs twice in the buckets, every position of the request
  occurs in them, and the dictionary at a position carries the name and the price of the
  input item at that position.  This holds whatever the language model replies and
  whatever the batch parser makes of it.
\<close>

theorem every_item_in_exactly_one_bucket:
  assumes "classifier_execute cl ev st items = Inr b"
    and "llm_batch_enabled st \<Longrightarrow> 0 \<le> llm_batch_size st"
  shows "length (vegetarian_items b) + length (non_vegetarian_items b) + length (uncertain_items b)
           = length items
       \<and> distinct (bucket_tags b)
       \<and> set (bucket_tags b) = {0 ..< length items}
       \<and> list_all (carries items) (vegetarian_items b @ non_vegetarian_items b @ uncertain_items b)"
proof -
  have eff: "mset (bucket_tags b) = mset [0 ..< length items] \<and> buckets_carry items b"
  proof (cases "llm_batch_enabled st")
    case True
    then have "execute_with_batch cl ev st items = Inr b"
      using assms(1) by (simp add: classifier_execute_def)
    from execute_with_batch_effect [OF this assms(2) [OF True]] show ?thesis by blast
  next
    case False
    then have "execute_sequential cl ev st items = Inr b"
      using assms(1) by (simp add: classifier_execute_def)
    from execute_sequential_effect [OF this] show ?thesis by blast
  qed
  then have "length (bucket_tags b) = length items \<and> distinct (bucket_tags b)
      \<and> set (bucket_tags b) = {0 ..< length items}"
    using tags_partition [of "bucket_tags b" "length items"] by blast
  moreover have "length (bucket_tags b)
      = length (vegetarian_items b) + length (non_vegetarian_items b) + length (uncertain_items b)"
    by (simp add: bucket_tags_def)
  ultimately show ?thesis
    using eff by (simp add: buckets_carry_def)
qed

text \<open>
  The example menu under the default settings (batch strategy, batch size 8); the
  language model's reply is an empty array, so the parser has no result for the bowl.
\<close>

theorem every_item_in_exactly_one_bucket_witness:
  "\<exists>b. classifier_execute example_classifier example_env default_settings example_menu = Inr b
       \<and> length (vegetarian_items b) + length (non_vegetarian_items b) + length (uncertain_items b)
           = length example_menu
       \<and> distinct (bucket_tags b)
       \<and> set (bucket_tags b) = {0 ..< length example_menu}
       \<and> list_all (carries example_menu)
           (vegetarian_items b @ non_vegetarian_items b @ uncertain_items b)"
proof -
  have "\<not> isl (classifier_execute example_classifier example_env default_settings example_menu)"
    by code_simp
  then obtain b where
    b: "classifier_execute example_classifier example_env default_settings example_menu = Inr b"
    by (cases "classifier_execute example_classifier example_env default_settings example_menu") auto
  have s: "0 \<le> llm_batch_size default_settings"
    by (simp add: default_settings_def)
  from every_item_in_exactly_one_bucket [OF b s] b show ?thesis by blast
qed

subsection \<open>Order of \<open>all_items\<close>\<close>




end
